theory Spec2Isabelle
  imports Main "HOL-Library.AList"
begin

section \<open>Lazy sequence utilities (src/common/utils/iter.ts)\<close>

text \<open>
  A generator over a finite input is modelled by the list of the values it yields, in
  the order in which it yields them. The callbacks of \<open>filter\<close> and \<open>filterMap\<close>
  are tested for JavaScript truthiness, so the values they return are JavaScript values.
  Numbers are kept as integers with \<open>NaN\<close> apart: only the test against zero matters here.
\<close>

datatype 'o js_value =
    JUndefined
  | JNull
  | JBool bool
  | JNum int
  | JNaN
  | JStr string
  | JObj 'o

fun truthy :: "'o js_value \<Rightarrow> bool" where
  "truthy JUndefined = False"
| "truthy JNull = False"
| "truthy (JBool b) = b"
| "truthy (JNum n) = (n \<noteq> 0)"
| "truthy JNaN = False"
| "truthy (JStr s) = (s \<noteq> [])"
| "truthy (JObj _) = True"

text \<open>\<open>map\<close>: \<^verbatim>\<open>for (const from of src) { yield fn(from); }\<close>\<close>

fun map_iter :: "'t list \<Rightarrow> ('t \<Rightarrow> 'u) \<Rightarrow> 'u list" where
  "map_iter [] fn = []"
| "map_iter (from # src) fn = fn from # map_iter src fn"

text \<open>\<open>flatMap\<close>: \<^verbatim>\<open>for (const from of src) { yield* fn(from); }\<close>\<close>

fun flatMap :: "'t list \<Rightarrow> ('t \<Rightarrow> 'u list) \<Rightarrow> 'u list" where
  "flatMap [] fn = []"
| "flatMap (from # src) fn = fn from @ flatMap src fn"

text \<open>\<open>filter\<close>: \<^verbatim>\<open>for (const from of src) { if (fn(from)) { yield from; } }\<close>\<close>

fun filter_iter :: "'t list \<Rightarrow> ('t \<Rightarrow> 'o js_value) \<Rightarrow> 't list" where
  "filter_iter [] fn = []"
| "filter_iter (from # src) fn =
     (if truthy (fn from) then from # filter_iter src fn else filter_iter src fn)"

text \<open>
  The callback of \<open>filter\<close> may close over mutable state, as the one of
  \<open>KubeconfigSyncManager.source\<close> does with its set of seen ids. \<open>filter_st\<close> is the
  same loop with the captured state threaded through the calls, in iteration order.
\<close>

fun filter_st :: "'t list \<Rightarrow> ('t \<Rightarrow> 's \<Rightarrow> 'o js_value \<times> 's) \<Rightarrow> 's \<Rightarrow> 't list \<times> 's" where
  "filter_st [] fn s = ([], s)"
| "filter_st (from # src) fn s =
     (case fn from s of (res, s') \<Rightarrow>
        (case filter_st src fn s' of (rest, s'') \<Rightarrow>
           (if truthy res then from # rest else rest, s'')))"

text \<open>
  \<open>filterMap\<close>:
  \<^verbatim>\<open>for (const from of src) { const res = fn(from); if (res) { yield res; } }\<close>
\<close>

fun filterMap :: "'t list \<Rightarrow> ('t \<Rightarrow> 'o js_value) \<Rightarrow> 'o js_value list" where
  "filterMap [] fn = []"
| "filterMap (from # src) fn =
     (let res = fn from in if truthy res then res # filterMap src fn else filterMap src fn)"

text \<open>
  \<open>find\<close>: the first item for which \<open>match\<close> holds, \<open>undefined\<close> (here \<open>None\<close>) when
  there is none. The \<open>match\<close> callbacks of this repository return booleans.
\<close>

fun find_iter :: "'t list \<Rightarrow> ('t \<Rightarrow> bool) \<Rightarrow> 't option" where
  "find_iter [] match = None"
| "find_iter (from # src) match = (if match from then Some from else find_iter src match)"

section \<open>Kubeconfig sync manager (KubeconfigSyncManager)\<close>

text \<open>
  A catalog entity is used through \<open>getId()\<close> only; the record is extensible, so an
  entity may carry any further fields. An observable map iterates in insertion order,
  as an ES \<open>Map\<close> does: it is an association list, \<open>set\<close> being \<open>AList.update\<close>
  (replace in place, or append a new key), \<open>delete\<close> being \<open>AList.delete\<close>.
\<close>

record catalog_entity =
  getId :: string

definition map_has :: "('k \<times> 'v) list \<Rightarrow> 'k \<Rightarrow> bool" where
  "map_has al k = (map_of al k \<noteq> None)"

datatype log_meta = FilePath string | Files "string list"

datatype log_entry = LogInfo string log_meta | LogDebug string log_meta

text \<open>The decimal digits of a number, as a template literal prints it.\<close>

definition digit_char :: "nat \<Rightarrow> char" where
  "digit_char d = ''0123456789'' ! d"

fun string_of_nat :: "nat \<Rightarrow> string" where
  "string_of_nat n =
     (if n < 10 then [digit_char n]
      else string_of_nat (n div 10) @ [digit_char (n mod 10)])"

declare string_of_nat.simps [simp del]

text \<open>
  The state of the manager: the \<open>sources\<close> map (each value is the pair of the entities
  the computed value currently holds and the disposer of the watch), the calls made to
  the logger, and the paths for which \<open>watchKubeconfigFileChanges\<close> has been called,
  that is, for which a file watch has been started.
\<close>

record ('m, 'd) sync_manager =
  sources :: "(string \<times> ('m catalog_entity_scheme list \<times> 'd)) list"
  logged :: "log_entry list"
  watch_started :: "string list"

definition init_manager :: "('m, 'd) sync_manager" where
  "init_manager = \<lparr>sources = [], logged = [], watch_started = []\<rparr>"

text \<open>
  The callback of the filter in \<open>source\<close>:
  \<^verbatim>\<open>entity => seenIds.has(entity.getId()) ? false : seenIds.add(entity.getId())\<close>.
  \<open>Set.add\<close> returns the set itself, an object.
\<close>

definition seen_filter ::
  "'m catalog_entity_scheme \<Rightarrow> string set \<Rightarrow> string set js_value \<times> string set" where
  "seen_filter entity seenIds =
     (if getId entity \<in> seenIds then (JBool False, seenIds)
      else (let seenIds' = insert (getId entity) seenIds in (JObj seenIds', seenIds')))"

text \<open>
  \<open>source\<close>: the pipeline over \<open>this.sources.values()\<close>, flattened, filtered with a
  fresh set of seen ids, and collected into an array.
\<close>

definition source :: "('m, 'd) sync_manager \<Rightarrow> 'm catalog_entity_scheme list" where
  "source m =
     fst (filter_st (flatMap (map snd (sources m)) (\<lambda>(entities, disposer). entities))
            seen_filter {})"

definition startNewSync ::
  "(string \<Rightarrow> 'm catalog_entity_scheme list \<times> 'd) \<Rightarrow> string
    \<Rightarrow> ('m, 'd) sync_manager \<Rightarrow> ('m, 'd) sync_manager" where
  "startNewSync watchKubeconfigFileChanges filePath m =
     (if map_has (sources m) filePath
      then m\<lparr>logged := logged m @ [LogDebug ''already syncing file/folder'' (FilePath filePath)]\<rparr>
      else
        (let sources' = AList.update filePath (watchKubeconfigFileChanges filePath) (sources m)
         in m\<lparr>sources := sources',
              watch_started := watch_started m @ [filePath],
              logged := logged m @
                [LogInfo ''starting sync of file/folder'' (FilePath filePath),
                 LogDebug (string_of_nat (length sources') @ '' files/folders watched'')
                   (Files (map fst sources'))]\<rparr>))"

definition stopOldSync :: "string \<Rightarrow> ('m, 'd) sync_manager \<Rightarrow> ('m, 'd) sync_manager" where
  "stopOldSync filePath m =
     (if \<not> map_has (sources m) filePath
      then m\<lparr>logged := logged m @ [LogDebug ''no syncing file/folder to stop'' (FilePath filePath)]\<rparr>
      else
        (let sources' = AList.delete filePath (sources m)
         in m\<lparr>sources := sources',
              logged := logged m @
                [LogInfo ''stopping sync of file/folder'' (FilePath filePath),
                 LogDebug (string_of_nat (length sources') @ '' files/folders watched'')
                   (Files (map fst sources'))]\<rparr>))"

text \<open>
  \<open>startNewSync\<close> and \<open>stopOldSync\<close> are the only methods that write to \<open>sources\<close>
  (\<open>startSync\<close>, \<open>stopSync\<close> and the observer of the sync list call them); a run of
  the manager is a sequence of such calls.
\<close>

datatype sync_op = StartNew string | StopOld string

fun run_sync ::
  "(string \<Rightarrow> 'm catalog_entity_scheme list \<times> 'd) \<Rightarrow> sync_op list
    \<Rightarrow> ('m, 'd) sync_manager \<Rightarrow> ('m, 'd) sync_manager" where
  "run_sync w [] m = m"
| "run_sync w (StartNew p # ops) m = run_sync w ops (startNewSync w p m)"
| "run_sync w (StopOld p # ops) m = run_sync w ops (stopOldSync p m)"

text \<open>
  The merged view in the words of the specification: the concatenation of the sources'
  entity lists, in source order, keeping the entity at position \<open>i\<close> exactly when no
  earlier position holds an entity of the same id.
\<close>

definition spec_merged_view :: "'m catalog_entity_scheme list list \<Rightarrow> 'm catalog_entity_scheme list" where
  "spec_merged_view entity_lists =
     (let xs = concat entity_lists
      in map (\<lambda>i. xs ! i)
           (filter (\<lambda>i. getId (xs ! i) \<notin> getId ` set (take i xs)) [0..<length xs]))"

section \<open>Kubernetes JSON API client (KubeJsonApi)\<close>

text \<open>
  The error payload is either a plain string or an object whose fields \<open>status\<close>,
  \<open>reason\<close> and \<open>message\<close> may each be absent; the record is extensible, for the
  fields \<open>parseError\<close> does not read. A string is truthy when it is not empty.
\<close>

record kube_json_api_error =
  err_status :: "string option"
  err_reason :: "string option"
  err_message :: "string option"

datatype 'm error_payload =
    StringPayload string
  | ObjectPayload "'m kube_json_api_error_scheme"

text \<open>\<open>a || b\<close> on an optional string \<open>a\<close>: \<open>a\<close> when it is truthy, else \<open>b\<close>.\<close>

definition or_else :: "string option \<Rightarrow> string \<Rightarrow> string" where
  "or_else a b = (case a of None \<Rightarrow> b | Some v \<Rightarrow> if v \<noteq> [] then v else b)"

text \<open>
  \<open>KubeJsonApi.parseError\<close>. The formatter of the base class \<open>JsonApi\<close> is reached
  through \<open>super.parseError(error, res)\<close>; it is a parameter here. The test
  \<open>status && reason\<close> holds when both fields are there and neither is empty.
\<close>

definition parseError ::
  "('m error_payload \<Rightarrow> 'r \<Rightarrow> string list) \<Rightarrow> 'm error_payload \<Rightarrow> 'r \<Rightarrow> string list" where
  "parseError super_parseError error res =
     (case error of
        StringPayload str \<Rightarrow> [str]
      | ObjectPayload e \<Rightarrow>
          (case (err_status e, err_reason e) of
             (Some status, Some reason) \<Rightarrow>
               if status \<noteq> [] \<and> reason \<noteq> []
               then [or_else (err_message e) (status @ '': '' @ reason)]
               else super_parseError error res
           | _ \<Rightarrow> super_parseError error res))"

section \<open>API registry (ApiManager)\<close>

text \<open>
  A client and a store are objects, compared by reference in the source
  (\<open>store.api === api\<close>): each record carries the identity of its object, and two
  references are the same object when the identities agree. The fields are the ones the
  registry reads.
\<close>

record kube_api =
  api_oid :: nat
  apiBase :: string
  api_kind :: string
  apiVersionWithGroup :: string

record kube_object_store =
  store_oid :: nat
  store_api :: kube_api

definition same_object :: "kube_api \<Rightarrow> kube_api \<Rightarrow> bool" where
  "same_object a b = (api_oid a = api_oid b)"

record api_manager =
  apis :: "(string \<times> kube_api) list"
  stores :: "(string \<times> kube_object_store) list"

text \<open>
  The helpers of \<open>kube-api-parse\<close> and the method \<open>KubeApi.getUrl\<close>, which the
  registry calls: \<open>parseKubeApi(path).apiBase\<close>, \<open>createKubeApiURL\<close> on its
  parameter object, and \<open>api.getUrl({ namespace, name })\<close>. With them comes the
  built-in \<open>String.prototype.toLowerCase\<close>: it maps every cased letter of Unicode
  to its lower case, which a function on the bytes of a string does not express, so it
  is a parameter too and nothing is assumed of it.
\<close>

record kube_api_url_params =
  url_apiPrefix :: "string option"
  url_apiVersion :: string
  url_name :: "string option"
  url_namespace :: "string option"
  url_resource :: string

record kube_api_helpers =
  parseKubeApi_apiBase :: "string \<Rightarrow> string"
  createKubeApiURL :: "kube_api_url_params \<Rightarrow> string"
  getUrl :: "kube_api \<Rightarrow> string option \<Rightarrow> string option \<Rightarrow> string"
  toLowerCase :: "string \<Rightarrow> string"

text \<open>A call of \<open>console.log(this.apis.keys(), parseKubeApi(path).apiBase)\<close>.\<close>

datatype console_line = ConsoleLog "string list" string

datatype api_selector = ByPath string | ByCallback "(kube_api \<Rightarrow> bool) option"

fun getApi ::
  "kube_api_helpers \<Rightarrow> api_manager \<Rightarrow> api_selector \<Rightarrow> kube_api option \<times> console_line list" where
  "getApi h m (ByPath pathOrCallback) =
     ((case map_of (apis m) pathOrCallback of
         Some api \<Rightarrow> Some api
       | None \<Rightarrow> map_of (apis m) (parseKubeApi_apiBase h pathOrCallback)),
      [ConsoleLog (map fst (apis m)) (parseKubeApi_apiBase h pathOrCallback)])"
| "getApi h m (ByCallback pathOrCallback) =
     (find_iter (map snd (apis m))
        (case pathOrCallback of Some callback \<Rightarrow> callback | None \<Rightarrow> (\<lambda>api. True)),
      [])"

definition getApiByKind :: "api_manager \<Rightarrow> string \<Rightarrow> string \<Rightarrow> kube_api option" where
  "getApiByKind m kind apiVersion =
     find_iter (map snd (apis m))
       (\<lambda>api. api_kind api = kind \<and> apiVersionWithGroup api = apiVersion)"

text \<open>
  The loop of \<open>registerApi\<close> over the stores,
  \<^verbatim>\<open>this.stores.forEach(store => { if (store.api === api) this.stores.set(api.apiBase, store); })\<close>,
  iterates over the live map: an entry appended by \<open>set\<close> is visited too, and each
  entry is read when it is reached.
\<close>

function rekey_stores ::
  "kube_api \<Rightarrow> nat \<Rightarrow> (string \<times> kube_object_store) list \<Rightarrow> (string \<times> kube_object_store) list" where
  "rekey_stores api i sts =
     (if i < length sts
      then (let store = snd (sts ! i)
            in rekey_stores api (Suc i)
                 (if same_object (store_api store) api
                  then AList.update (apiBase api) store sts
                  else sts))
      else sts)"
  by pat_completeness auto

termination rekey_stores
proof (relation "measure (\<lambda>(api, i, sts).
          (length sts + (if map_has sts (apiBase api) then 0 else 1)) - i)")
  show "wf (measure (\<lambda>(api, i, sts).
          (length sts + (if map_has sts (apiBase api) then 0 else 1)) - i))"
    by simp
next
  fix api :: kube_api and i :: nat and sts :: "(string \<times> kube_object_store) list" and x
  assume bound: "i < length sts" and "x = snd (sts ! i)"
  have len: "length (AList.update k x al) = (if map_has al k then length al else Suc (length al))"
    for k and al :: "(string \<times> kube_object_store) list"
    by (induction al) (auto simp: map_has_def)
  from bound show "((api, Suc i,
          if same_object (store_api x) api then AList.update (apiBase api) x sts else sts),
         api, i, sts)
        \<in> measure (\<lambda>(api, i, sts).
          (length sts + (if map_has sts (apiBase api) then 0 else 1)) - i)"
    by (auto simp: len map_has_def update_conv')
qed

text \<open>
  \<open>registerApi\<close>, with both of its overloads: the client is the second argument
  when the first one is a string (the deprecated form), the first argument otherwise.
  Nothing happens when there is no client or its \<open>apiBase\<close> is empty.
\<close>

definition registerApi ::
  "string + kube_api \<Rightarrow> kube_api option \<Rightarrow> api_manager \<Rightarrow> api_manager" where
  "registerApi apiBaseRaw apiRaw m =
     (case (case apiBaseRaw of Inl str \<Rightarrow> apiRaw | Inr a \<Rightarrow> Some a) of
        None \<Rightarrow> m
      | Some api \<Rightarrow>
          if apiBase api = [] then m
          else if \<not> map_has (apis m) (apiBase api)
          then m\<lparr>stores := rekey_stores api 0 (stores m),
                 apis := AList.update (apiBase api) api (apis m)\<rparr>
          else m)"

text \<open>
  \<open>registerStore(store, apis = [store.api])\<close>: for every defined client of the list
  with a non-empty \<open>apiBase\<close>, the store is set under that \<open>apiBase\<close>.
\<close>

fun registerStore_loop ::
  "kube_object_store \<Rightarrow> kube_api option list \<Rightarrow> (string \<times> kube_object_store) list
    \<Rightarrow> (string \<times> kube_object_store) list" where
  "registerStore_loop store [] sts = sts"
| "registerStore_loop store (None # rest) sts = registerStore_loop store rest sts"
| "registerStore_loop store (Some api # rest) sts =
     registerStore_loop store rest
       (if apiBase api \<noteq> [] then AList.update (apiBase api) store sts else sts)"

definition registerStore ::
  "kube_object_store \<Rightarrow> kube_api option list option \<Rightarrow> api_manager \<Rightarrow> api_manager" where
  "registerStore store apis_arg m =
     m\<lparr>stores := registerStore_loop store
          (case apis_arg of None \<Rightarrow> [Some (store_api store)] | Some as \<Rightarrow> as) (stores m)\<rparr>"

text \<open>
  An object reference and the parent object of \<open>lookupApiLink\<close>. \<open>kind\<close>,
  \<open>apiVersion\<close>, \<open>name\<close> and \<open>namespace\<close> may each be absent from the reference;
  of the parent only \<open>getNs()\<close> is read, which is undefined for an object without a
  namespace.
\<close>

record object_reference =
  ref_kind :: "string option"
  ref_apiVersion :: "string option"
  ref_name :: "string option"
  ref_namespace :: "string option"

record kube_object =
  getNs :: "string option"

text \<open>
  \<open>String.prototype.endsWith\<close>: the string ends with the characters of the suffix.
\<close>

definition endsWith :: "string \<Rightarrow> string \<Rightarrow> bool" where
  "endsWith str suffix =
     (length suffix \<le> length str \<and> drop (length str - length suffix) str = suffix)"

text \<open>
  The loop of \<open>lookupApiLink\<close> over the prefixes \<open>/apis\<close> and \<open>/api\<close>: the first
  generated link for which \<open>getApi\<close> finds a client is returned.
\<close>

fun lookup_generated ::
  "kube_api_helpers \<Rightarrow> api_manager \<Rightarrow> kube_api_url_params \<Rightarrow> string list
    \<Rightarrow> string option \<times> console_line list" where
  "lookup_generated h m params [] = (None, [])"
| "lookup_generated h m params (apiPrefix # apiPrefixes) =
     (let apiLink = createKubeApiURL h (params\<lparr>url_apiPrefix := Some apiPrefix\<rparr>)
      in case getApi h m (ByPath apiLink) of
           (Some api, out) \<Rightarrow> (Some apiLink, out)
         | (None, out) \<Rightarrow>
             (case lookup_generated h m params apiPrefixes of
                (res, out') \<Rightarrow> (res, out @ out')))"

text \<open>
  \<open>lookupApiLink(ref, parentObject?)\<close>: the link, and the lines written to the
  console by the calls of \<open>getApi\<close> on a path.
\<close>

definition lookupApiLink ::
  "kube_api_helpers \<Rightarrow> api_manager \<Rightarrow> object_reference \<Rightarrow> 'p kube_object_scheme option
    \<Rightarrow> string \<times> console_line list" where
  "lookupApiLink h m ref parentObject =
     (let apiVersion = (case ref_apiVersion ref of None \<Rightarrow> ''v1'' | Some v \<Rightarrow> v);
          name = ref_name ref;
          namespace = (case ref_namespace ref of
                         Some ns \<Rightarrow> Some ns
                       | None \<Rightarrow> (case parentObject of None \<Rightarrow> None | Some parent \<Rightarrow> getNs parent))
      in case ref_kind ref of
           None \<Rightarrow> ([], [])
         | Some kind \<Rightarrow>
             if kind = [] then ([], [])
             else
               (case getApi h m (ByCallback (Some (\<lambda>api. api_kind api = kind
                                                   \<and> apiVersionWithGroup api = apiVersion))) of
                  (Some api, out1) \<Rightarrow> (getUrl h api namespace name, out1)
                | (None, out1) \<Rightarrow>
                    (let resource = (if endsWith kind ''s'' then toLowerCase h kind @ ''es''
                                     else toLowerCase h kind @ ''s'');
                         params = \<lparr>url_apiPrefix = None, url_apiVersion = apiVersion,
                                   url_name = name, url_namespace = namespace,
                                   url_resource = resource\<rparr>
                     in case lookup_generated h m params [''/apis'', ''/api''] of
                          (Some apiLink, out2) \<Rightarrow> (apiLink, out1 @ out2)
                        | (None, out2) \<Rightarrow>
                            (case getApi h m (ByCallback (Some (\<lambda>api. api_kind api = kind))) of
                               (Some apiByKind, out3) \<Rightarrow>
                                 (getUrl h apiByKind namespace name, out1 @ out2 @ out3)
                             | (None, out3) \<Rightarrow>
                                 (createKubeApiURL h params, out1 @ out2 @ out3)))))"

section \<open>Kube resource client (KubeApi)\<close>

text \<open>
  The class \<open>KubeApi\<close> (kube-api.ts) is not among the sources; its tests
  (k8s-api/__tests__/kube-api.test.ts) and its subclasses are. The definitions of this
  section follow the specification, sections 3 and 4.3, and the requests the tests expect.
\<close>

datatype http_method = HttpGet | HttpDelete

record http_request =
  req_method :: http_method
  req_url :: string

text \<open>
  Modelled from the spec: a candidate api-base of a client (the primary \<open>apiBase\<close>, then
  each of \<open>fallbackApiBases\<close>), with the parts the missing \<open>parseKubeApi\<close> splits
  it into: prefix, API group, version and the plural name of the resource.
\<close>

record api_base_candidate =
  cand_apiPrefix :: string
  cand_apiGroup :: string
  cand_apiVersion :: string
  cand_resource :: string

text \<open>
  Modelled from the spec: the resource-list endpoint of a candidate, missing with
  \<open>KubeApi\<close>: \<open>GET {apiPrefix}/{group}/{version}\<close>.
\<close>

definition resource_list_request :: "api_base_candidate \<Rightarrow> http_request" where
  "resource_list_request c =
     \<lparr>req_method = HttpGet,
      req_url = cand_apiPrefix c @ ''/'' @ cand_apiGroup c @ ''/'' @ cand_apiVersion c\<rparr>"

text \<open>
  Modelled from the spec: the group metadata endpoint, missing with \<open>KubeApi\<close>:
  \<open>GET {apiPrefix}/{group}\<close>.
\<close>

definition group_request :: "api_base_candidate \<Rightarrow> http_request" where
  "group_request c =
     \<lparr>req_method = HttpGet, req_url = cand_apiPrefix c @ ''/'' @ cand_apiGroup c\<rparr>"

text \<open>
  Modelled from the spec: the test of one candidate in the missing version negotiation of
  \<open>KubeApi\<close>: the plural name of the target resource is in the resource list the server
  returns for the candidate. The server is the function from a request to the names of
  the resources it lists.
\<close>

definition lists_resource :: "(http_request \<Rightarrow> string list) \<Rightarrow> api_base_candidate \<Rightarrow> bool" where
  "lists_resource server c = (cand_resource c \<in> set (server (resource_list_request c)))"

text \<open>
  Modelled from the spec: the loop of the missing version negotiation of \<open>KubeApi\<close>
  over the candidates, primary first, then the fallbacks in order. It returns the
  requests issued, in order, and the first candidate whose resource list has the
  resource, if there is one.
\<close>

fun negotiate ::
  "(http_request \<Rightarrow> string list) \<Rightarrow> api_base_candidate list
    \<Rightarrow> http_request list \<times> api_base_candidate option" where
  "negotiate server [] = ([], None)"
| "negotiate server (c # cs) =
     (if lists_resource server c then ([resource_list_request c], Some c)
      else (case negotiate server cs of
              (requests, found) \<Rightarrow> (resource_list_request c # requests, found)))"

text \<open>
  Modelled from the spec: the client state of the missing \<open>KubeApi\<close> that version
  negotiation reads and writes: the flag \<open>checkPreferredVersion\<close>, the candidates, and
  the resolved prefix, group and preferred version, unset until negotiation has run.
\<close>

record kube_api_client =
  checkPreferredVersion :: bool
  api_candidates :: "api_base_candidate list"
  resolved_apiPrefix :: "string option"
  resolved_apiGroup :: "string option"
  apiVersionPreferred :: "string option"

text \<open>
  Modelled from the spec: the missing version negotiation of \<open>KubeApi\<close>. It runs
  only when \<open>checkPreferredVersion\<close> is set and nothing is resolved yet. On the first
  matching candidate the group metadata is read for \<open>preferredVersion.version\<close> (the
  second server function), and prefix, group and version are locked in; without a match
  the client is left as it is. The result is the client and the requests issued.
\<close>

definition negotiate_version ::
  "(http_request \<Rightarrow> string list) \<Rightarrow> (http_request \<Rightarrow> string)
    \<Rightarrow> kube_api_client \<Rightarrow> kube_api_client \<times> http_request list" where
  "negotiate_version server preferred_at client =
     (if \<not> checkPreferredVersion client \<or> apiVersionPreferred client \<noteq> None
      then (client, [])
      else (case negotiate server (api_candidates client) of
              (requests, None) \<Rightarrow> (client, requests)
            | (requests, Some c) \<Rightarrow>
                (client\<lparr>resolved_apiPrefix := Some (cand_apiPrefix c),
                        resolved_apiGroup := Some (cand_apiGroup c),
                        apiVersionPreferred := Some (preferred_at (group_request c))\<rparr>,
                 requests @ [group_request c])))"

text \<open>
  Modelled from the spec: the resource descriptor and the resolved parts of a client of
  the missing \<open>KubeApi\<close> from which URLs are built.
\<close>

record kube_resource =
  res_namespaced :: bool
  res_apiPrefix :: string
  res_apiGroup :: string
  res_apiVersion :: string
  res_plural :: string

text \<open>
  Modelled from the spec: \<open>getUrl({name?, namespace?})\<close> of the missing \<open>KubeApi\<close>.
  The path interpolates prefix, group, version, namespace, plural resource name and
  name, without the parts that are empty; a cluster-scoped resource ignores the namespace;
  a namespaced one uses \<open>default\<close> when the namespace is omitted or empty.
\<close>

definition resource_url :: "kube_resource \<Rightarrow> string option \<Rightarrow> string option \<Rightarrow> string" where
  "resource_url r name namespace =
     res_apiPrefix r @
     concat (map (\<lambda>part. ''/'' @ part)
       (filter (\<lambda>part. part \<noteq> [])
          ([res_apiGroup r, res_apiVersion r]
           @ (if res_namespaced r
              then [''namespaces'',
                    (case namespace of None \<Rightarrow> ''default''
                     | Some ns \<Rightarrow> if ns = [] then ''default'' else ns)]
              else [])
           @ [res_plural r]
           @ (case name of None \<Rightarrow> [] | Some n \<Rightarrow> [n]))))"

datatype 'e kube_api_error = NamespaceOnClusterScoped | TransportError 'e

text \<open>
  Modelled from the spec: \<open>delete({name, namespace})\<close> of the missing \<open>KubeApi\<close>. On
  a cluster-scoped kind a non-empty namespace is rejected before any request is sent;
  otherwise the delete request is issued on the resource URL (with the query the tests
  expect) and the outcome is the transport's. The result is the outcome and the requests
  sent.
\<close>

definition delete_resource ::
  "kube_resource \<Rightarrow> (http_request \<Rightarrow> 'e + 'a) \<Rightarrow> string \<Rightarrow> string option
    \<Rightarrow> ('e kube_api_error + 'a) \<times> http_request list" where
  "delete_resource r transport name namespace =
     (if \<not> res_namespaced r \<and> (case namespace of None \<Rightarrow> False | Some ns \<Rightarrow> ns \<noteq> [])
      then (Inl NamespaceOnClusterScoped, [])
      else (let request = \<lparr>req_method = HttpDelete,
                            req_url = resource_url r (Some name) namespace
                                      @ ''?propagationPolicy=Background''\<rparr>
            in (case transport request of
                  Inl e \<Rightarrow> Inl (TransportError e)
                | Inr v \<Rightarrow> Inr v,
                [request])))"

text \<open>
  Modelled from the spec: a watch request of the missing \<open>KubeApi.watch\<close>: the
  namespace, the resource version checkpoint and the timeout it is issued with, and its
  URL \<open>{url}?watch=1&resourceVersion={last}\<close>, with \<open>&timeoutSeconds={timeout}\<close>
  when a timeout is given.
\<close>

record watch_request =
  wr_namespace :: "string option"
  wr_resourceVersion :: string
  wr_timeout :: "nat option"

definition watch_url :: "kube_resource \<Rightarrow> watch_request \<Rightarrow> string" where
  "watch_url r w =
     resource_url r None (wr_namespace w) @ ''?watch=1&resourceVersion='' @ wr_resourceVersion w
     @ (case wr_timeout w of None \<Rightarrow> [] | Some t \<Rightarrow> ''&timeoutSeconds='' @ string_of_nat t)"

text \<open>
  Modelled from the spec: a watch subscription of the missing \<open>KubeApi.watch\<close>: its
  namespace and timeout, the latest resource version seen, whether it has been stopped,
  whether a stream is in flight, the watch requests issued so far and the number of
  in-flight calls aborted.
\<close>

record watch_subscription =
  ws_namespace :: "string option"
  ws_timeout :: "nat option"
  ws_resourceVersion :: string
  ws_stopped :: bool
  ws_in_flight :: bool
  ws_requests :: "watch_request list"
  ws_aborted :: nat

text \<open>
  Modelled from the spec: what can happen to a subscription of the missing
  \<open>KubeApi.watch\<close>: the stream delivers an event carrying a resource version, the
  stream ends cleanly, the stop handle is called, the abort controller of the caller
  fires.
\<close>

datatype watch_input = StreamEvent string | StreamEnd | StopFn | AbortFired

definition next_watch_request :: "watch_subscription \<Rightarrow> watch_request" where
  "next_watch_request s =
     \<lparr>wr_namespace = ws_namespace s, wr_resourceVersion = ws_resourceVersion s,
      wr_timeout = ws_timeout s\<rparr>"

text \<open>
  Modelled from the spec: \<open>watch({namespace?, callback, abortController?, timeout?})\<close>
  of the missing \<open>KubeApi\<close> opens the first stream, from the empty checkpoint.
\<close>

definition watch_open :: "string option \<Rightarrow> nat option \<Rightarrow> watch_subscription" where
  "watch_open namespace timeout =
     \<lparr>ws_namespace = namespace, ws_timeout = timeout, ws_resourceVersion = [],
      ws_stopped = False, ws_in_flight = True,
      ws_requests = [\<lparr>wr_namespace = namespace, wr_resourceVersion = [], wr_timeout = timeout\<rparr>],
      ws_aborted = 0\<rparr>"

text \<open>
  Modelled from the spec: the reaction of a subscription of the missing
  \<open>KubeApi.watch\<close>. An event moves the checkpoint. A clean end of the stream of a
  subscription that has not been stopped issues the same request from the checkpoint, and
  the new stream is in flight. The stop handle and the abort controller mark the
  subscription stopped and abort the call in flight; stopping when no stream is in flight
  does nothing more.
\<close>

fun watch_step :: "watch_subscription \<Rightarrow> watch_input \<Rightarrow> watch_subscription" where
  "watch_step s (StreamEvent resourceVersion) =
     (if ws_in_flight s then s\<lparr>ws_resourceVersion := resourceVersion\<rparr> else s)"
| "watch_step s StreamEnd =
     (if ws_in_flight s
      then (if ws_stopped s then s\<lparr>ws_in_flight := False\<rparr>
            else s\<lparr>ws_requests := ws_requests s @ [next_watch_request s]\<rparr>)
      else s)"
| "watch_step s StopFn =
     (if ws_in_flight s
      then s\<lparr>ws_stopped := True, ws_in_flight := False, ws_aborted := Suc (ws_aborted s)\<rparr>
      else s\<lparr>ws_stopped := True\<rparr>)"
| "watch_step s AbortFired =
     (if ws_in_flight s
      then s\<lparr>ws_stopped := True, ws_in_flight := False, ws_aborted := Suc (ws_aborted s)\<rparr>
      else s\<lparr>ws_stopped := True\<rparr>)"

fun watch_run :: "watch_subscription \<Rightarrow> watch_input list \<Rightarrow> watch_subscription" where
  "watch_run s [] = s"
| "watch_run s (input # inputs) = watch_run (watch_step s input) inputs"

text \<open>
  The example of the specification: the sources \<open>A = [x, y]\<close> and \<open>B = [x, z]\<close>,
  added in that order; the extension field of an entity tells which source reported it.
\<close>

definition example_manager :: "(string, nat) sync_manager" where
  "example_manager = \<lparr>sources =
      [(''/a'', [\<lparr>getId = ''x'', \<dots> = ''A''\<rparr>, \<lparr>getId = ''y'', \<dots> = ''A''\<rparr>], 0),
       (''/b'', [\<lparr>getId = ''x'', \<dots> = ''B''\<rparr>, \<lparr>getId = ''z'', \<dots> = ''B''\<rparr>], 1)],
     logged = [], watch_started = [''/a'', ''/b'']\<rparr>"

text \<open>Example payloads, clients, registries and references.\<close>

definition stub_super_parseError :: "unit error_payload \<Rightarrow> unit \<Rightarrow> string list" where
  "stub_super_parseError error res = [''Error!'']"

definition empty_message_error :: "unit kube_json_api_error_scheme" where
  "empty_message_error =
     \<lparr>err_status = Some ''Failure'', err_reason = Some ''NotFound'', err_message = Some ''''\<rparr>"

definition empty_status_error :: "unit kube_json_api_error_scheme" where
  "empty_status_error =
     \<lparr>err_status = Some '''', err_reason = Some ''NotFound'', err_message = None\<rparr>"

definition pod_api_registered :: kube_api where
  "pod_api_registered =
     \<lparr>api_oid = 0, apiBase = ''/api/v1/pods'', api_kind = ''Pod'', apiVersionWithGroup = ''v1''\<rparr>"

definition pod_api_first :: kube_api where
  "pod_api_first =
     \<lparr>api_oid = 1, apiBase = ''/api/v1/pods'', api_kind = ''Pod'', apiVersionWithGroup = ''v1''\<rparr>"

definition pod_api_second :: kube_api where
  "pod_api_second =
     \<lparr>api_oid = 2, apiBase = ''/api/v1/pods'', api_kind = ''Pod'', apiVersionWithGroup = ''v1''\<rparr>"

definition unnamed_api_first :: kube_api where
  "unnamed_api_first =
     \<lparr>api_oid = 3, apiBase = [], api_kind = ''Pod'', apiVersionWithGroup = ''v1''\<rparr>"

definition unnamed_api_second :: kube_api where
  "unnamed_api_second =
     \<lparr>api_oid = 4, apiBase = [], api_kind = ''Pod'', apiVersionWithGroup = ''v1''\<rparr>"

definition empty_registry :: api_manager where
  "empty_registry = \<lparr>apis = [], stores = []\<rparr>"

definition registry_with_pods :: api_manager where
  "registry_with_pods = \<lparr>apis = [(''/api/v1/pods'', pod_api_registered)], stores = []\<rparr>"

text \<open>
  Example helpers. Their \<open>toLowerCase\<close> maps the letters A to Z to a to z and
  leaves every other byte: on a string of ASCII characters, such as the kind of the
  example reference, that is the result of \<open>String.prototype.toLowerCase\<close>.
\<close>

definition ascii_lower_char :: "char \<Rightarrow> char" where
  "ascii_lower_char c =
     (case map_of (zip ''ABCDEFGHIJKLMNOPQRSTUVWXYZ'' ''abcdefghijklmnopqrstuvwxyz'') c of
        None \<Rightarrow> c
      | Some l \<Rightarrow> l)"

definition example_helpers :: kube_api_helpers where
  "example_helpers =
     \<lparr>parseKubeApi_apiBase = (\<lambda>path. path),
      createKubeApiURL = (\<lambda>p. (case url_apiPrefix p of None \<Rightarrow> ''/apis'' | Some apiPrefix \<Rightarrow> apiPrefix)
                              @ ''/'' @ url_apiVersion p @ ''/'' @ url_resource p),
      getUrl = (\<lambda>api namespace name. apiBase api),
      toLowerCase = map ascii_lower_char\<rparr>"

definition ingress_ref :: object_reference where
  "ingress_ref = \<lparr>ref_kind = Some ''Ingress'', ref_apiVersion = Some ''networking.k8s.io/v1'',
     ref_name = Some ''web'', ref_namespace = None\<rparr>"

definition no_kind_ref :: object_reference where
  "no_kind_ref = \<lparr>ref_kind = Some [], ref_apiVersion = None,
     ref_name = Some ''web'', ref_namespace = None\<rparr>"

definition ingress_candidates :: "api_base_candidate list" where
  "ingress_candidates =
     [\<lparr>cand_apiPrefix = ''/apis'', cand_apiGroup = ''networking.k8s.io'',
       cand_apiVersion = ''v1'', cand_resource = ''ingresses''\<rparr>,
      \<lparr>cand_apiPrefix = ''/apis'', cand_apiGroup = ''extensions'',
       cand_apiVersion = ''v1beta1'', cand_resource = ''ingresses''\<rparr>,
      \<lparr>cand_apiPrefix = ''/apis'', cand_apiGroup = ''extensions'',
       cand_apiVersion = ''v1beta2'', cand_resource = ''ingresses''\<rparr>]"

definition ingress_client :: kube_api_client where
  "ingress_client =
     \<lparr>checkPreferredVersion = True, api_candidates = ingress_candidates,
      resolved_apiPrefix = None, resolved_apiGroup = None, apiVersionPreferred = None\<rparr>"

definition old_cluster :: "http_request \<Rightarrow> string list" where
  "old_cluster request =
     (if req_url request = ''/apis/networking.k8s.io/v1'' then [] else [''ingresses''])"

definition old_cluster_preferred :: "http_request \<Rightarrow> string" where
  "old_cluster_preferred request = ''v1beta1''"

definition namespace_resource :: kube_resource where
  "namespace_resource =
     \<lparr>res_namespaced = False, res_apiPrefix = ''/api'', res_apiGroup = [],
      res_apiVersion = ''v1'', res_plural = ''namespaces''\<rparr>"

definition accepting_transport :: "http_request \<Rightarrow> unit + string" where
  "accepting_transport request = Inr ''{}''"

definition kube_system_watch :: watch_subscription where
  "kube_system_watch = watch_open (Some ''kube-system'') (Some 60)"

section \<open>Properties\<close>

subsection \<open>Properties of the iterator utilities\<close>

lemma map_iter_eq_map: "map_iter src fn = map fn src"
  by (induction src) simp_all

lemma flatMap_eq_concat: "flatMap src fn = concat (map fn src)"
  by (induction src) simp_all

lemma filter_iter_eq_filter: "filter_iter src fn = filter (\<lambda>x. truthy (fn x)) src"
  by (induction src) simp_all

lemma filter_st_pure:
  "filter_st src (\<lambda>x s. (fn x, s)) s = (filter_iter src fn, s)"
  by (induction src) simp_all

lemma filterMap_eq_filter_map: "filterMap src fn = filter truthy (map fn src)"
  by (induction src) (simp_all add: Let_def)

lemma find_iter_eq_find: "find_iter src match = List.find match src"
  by (induction src) simp_all

text \<open>
  Claim C9. For every finite input sequence \<open>src\<close> and function \<open>fn\<close>,
  \<open>filterMap(src, fn)\<close> is \<open>filter(map(src, fn), v => v)\<close>: it yields the truthy
  values among \<open>fn(x)\<close>, for \<open>x\<close> from \<open>src\<close> in order, so that none of
  \<open>false\<close>, \<open>0\<close>, the empty string, \<open>null\<close> and \<open>undefined\<close> is ever yielded.
\<close>

theorem filterMap_is_filter_of_map:
  "filterMap src fn = filter_iter (map_iter src fn) (\<lambda>v. v)
   \<and> filterMap src fn = filter truthy (map fn src)
   \<and> JBool False \<notin> set (filterMap src fn)
   \<and> JNum 0 \<notin> set (filterMap src fn)
   \<and> JStr [] \<notin> set (filterMap src fn)
   \<and> JNull \<notin> set (filterMap src fn)
   \<and> JUndefined \<notin> set (filterMap src fn)"
proof -
  have eq: "filterMap src fn = filter truthy (map fn src)"
    by (rule filterMap_eq_filter_map)
  have fm: "filter_iter (map_iter src fn) (\<lambda>v. v) = filter truthy (map fn src)"
    by (simp add: filter_iter_eq_filter map_iter_eq_map)
  have tr: "\<And>v. v \<in> set (filterMap src fn) \<Longrightarrow> truthy v"
    by (simp add: eq)
  have "JBool False \<notin> set (filterMap src fn)" using tr by force
  moreover have "JNum 0 \<notin> set (filterMap src fn)" using tr by force
  moreover have "JStr [] \<notin> set (filterMap src fn)" using tr by force
  moreover have "JNull \<notin> set (filterMap src fn)" using tr by force
  moreover have "JUndefined \<notin> set (filterMap src fn)" using tr by force
  ultimately show ?thesis
    using eq fm by simp
qed

subsection \<open>The merged view of the kubeconfig sources\<close>

lemma filter_st_seen_index:
  "fst (filter_st xs seen_filter S) =
     map (\<lambda>i. xs ! i) (filter (\<lambda>i. getId (xs ! i) \<notin> S \<union> getId ` set (take i xs)) [0..<length xs])"
proof (induction xs arbitrary: S)
  case Nil
  then show ?case by simp
next
  case (Cons x xs)
  let ?keep = "\<lambda>T ys i. getId (ys ! i) \<notin> T \<union> getId ` set (take i ys)"
  have upt: "[0..<length (x # xs)] = 0 # map Suc [0..<length xs]"
    by (simp add: upt_conv_Cons map_Suc_upt del: upt_Suc)
  have tl: "map (\<lambda>i. (x # xs) ! i) (filter (?keep S (x # xs)) (map Suc [0..<length xs]))
            = map (\<lambda>i. xs ! i) (filter (?keep (insert (getId x) S) xs) [0..<length xs])"
    by (simp add: filter_map comp_def conj_ac)
  have ih: "fst (filter_st xs seen_filter (insert (getId x) S))
            = map (\<lambda>i. xs ! i) (filter (?keep (insert (getId x) S) xs) [0..<length xs])"
    by (rule Cons.IH)
  show ?case
  proof (cases "getId x \<in> S")
    case True
    then have abs: "insert (getId x) S = S" by auto
    have "fst (filter_st (x # xs) seen_filter S) = fst (filter_st xs seen_filter S)"
      using True by (simp add: seen_filter_def split: prod.splits)
    also have "\<dots> = map (\<lambda>i. xs ! i) (filter (?keep (insert (getId x) S) xs) [0..<length xs])"
      using ih by (simp only: abs)
    also have "\<dots> = map (\<lambda>i. (x # xs) ! i) (filter (?keep S (x # xs)) [0..<length (x # xs)])"
      unfolding upt using True tl by simp
    finally show ?thesis .
  next
    case False
    have "fst (filter_st (x # xs) seen_filter S)
          = x # fst (filter_st xs seen_filter (insert (getId x) S))"
      using False by (simp add: seen_filter_def Let_def split: prod.splits)
    also have "\<dots> = x # map (\<lambda>i. xs ! i) (filter (?keep (insert (getId x) S) xs) [0..<length xs])"
      using ih by simp
    also have "\<dots> = map (\<lambda>i. (x # xs) ! i) (filter (?keep S (x # xs)) [0..<length (x # xs)])"
      unfolding upt using False tl by simp
    finally show ?thesis .
  qed
qed

lemma filter_st_seen_distinct:
  "distinct (map getId (fst (filter_st xs seen_filter S)))
   \<and> getId ` set (fst (filter_st xs seen_filter S)) \<inter> S = {}"
proof (induction xs arbitrary: S)
  case Nil
  then show ?case by simp
next
  case (Cons x xs)
  show ?case
  proof (cases "getId x \<in> S")
    case True
    then show ?thesis using Cons.IH[of S]
      by (simp add: seen_filter_def case_prod_beta)
  next
    case False
    then show ?thesis using Cons.IH[of "insert (getId x) S"]
      by (simp add: seen_filter_def Let_def case_prod_beta)
  qed
qed

text \<open>
  Claim C1. Reading \<open>source\<close> yields the concatenation of the sources' entity lists,
  in the insertion order of the sources, without every entity whose id is the id of an
  earlier entity: for each id the first occurrence is kept and every later entity of that
  id, from the same or from another source, is absent; no two entities of the result
  share an id.
\<close>

theorem source_keeps_first_occurrences:
  "source m = spec_merged_view (map (\<lambda>(path, entities, disposer). entities) (sources m))
   \<and> distinct (map getId (source m))"
proof -
  have fm: "flatMap (map snd (sources m)) (\<lambda>(entities, disposer). entities)
        = concat (map (\<lambda>(path, entities, disposer). entities) (sources m))"
    by (simp add: flatMap_eq_concat comp_def case_prod_unfold)
  show ?thesis
    using filter_st_seen_index[of "concat (map (\<lambda>(path, entities, disposer). entities) (sources m))" "{}"]
      filter_st_seen_distinct[of "concat (map (\<lambda>(path, entities, disposer). entities) (sources m))" "{}"]
    by (simp add: source_def spec_merged_view_def fm Let_def)
qed

theorem source_keeps_first_occurrences_witness:
  "source example_manager
     = [\<lparr>getId = ''x'', \<dots> = ''A''\<rparr>, \<lparr>getId = ''y'', \<dots> = ''A''\<rparr>, \<lparr>getId = ''z'', \<dots> = ''B''\<rparr>]
   \<and> spec_merged_view (map (\<lambda>(path, entities, disposer). entities) (sources example_manager))
     = [\<lparr>getId = ''x'', \<dots> = ''A''\<rparr>, \<lparr>getId = ''y'', \<dots> = ''A''\<rparr>, \<lparr>getId = ''z'', \<dots> = ''B''\<rparr>]"
  using source_keeps_first_occurrences [of example_manager]
  by (simp add: source_def example_manager_def seen_filter_def Let_def)

subsection \<open>Idempotent start of a sync\<close>

lemma map_has_iff: "map_has al k \<longleftrightarrow> k \<in> fst ` set al"
  by (simp add: map_has_def map_of_eq_None_iff)

lemma map_has_update: "map_has (AList.update k v al) k"
  by (simp add: map_has_iff dom_update)

lemma distinct_keys_startNewSync:
  "distinct (map fst (sources m)) \<Longrightarrow> distinct (map fst (sources (startNewSync w p m)))"
  by (simp add: startNewSync_def Let_def distinct_update)

lemma distinct_keys_stopOldSync:
  "distinct (map fst (sources m)) \<Longrightarrow> distinct (map fst (sources (stopOldSync p m)))"
  by (simp add: stopOldSync_def Let_def distinct_delete)

lemma distinct_keys_run_sync:
  "distinct (map fst (sources m)) \<Longrightarrow> distinct (map fst (sources (run_sync w ops m)))"
proof (induction ops arbitrary: m)
  case Nil
  then show ?case by simp
next
  case (Cons op ops)
  then show ?case
    by (cases op) (simp_all add: distinct_keys_startNewSync distinct_keys_stopOldSync)
qed

lemma reachable_at_most_one_source:
  "distinct (map fst (sources (run_sync w ops init_manager)))"
  by (rule distinct_keys_run_sync) (simp add: init_manager_def)

lemma has_after_startNewSync: "map_has (sources (startNewSync w p m)) p"
  by (simp add: startNewSync_def Let_def map_has_update)

lemma count_key_distinct:
  "distinct (map fst al) \<Longrightarrow> k \<in> fst ` set al \<Longrightarrow> length (filter (\<lambda>e. fst e = k) al) = 1"
proof (induction al)
  case Nil
  then show ?case by simp
next
  case (Cons a al)
  show ?case
  proof (cases "fst a = k")
    case True
    with Cons.prems have "k \<notin> fst ` set al" by auto
    then have "filter (\<lambda>e. fst e = k) al = []"
      by (auto simp: filter_empty_conv)
    with True show ?thesis by simp
  next
    case False
    with Cons show ?thesis by auto
  qed
qed

text \<open>
  Claim C7. From a state in which every path has at most one source, two calls of
  \<open>startNewSync(p)\<close> in succession leave exactly one source entry for \<open>p\<close>: the
  second call changes neither the sources nor the file watches started, and logs the one
  debug line "already syncing file/folder"; when \<open>p\<close> had no source before, the two
  calls start one file watch. Every path still has at most one source afterwards, and
  every state reached from the initial one by calls of \<open>startNewSync\<close> and
  \<open>stopOldSync\<close> has at most one source per path.
\<close>

theorem startNewSync_twice_one_source:
  assumes "distinct (map fst (sources m))"
  shows "sources (startNewSync w p (startNewSync w p m)) = sources (startNewSync w p m)
     \<and> watch_started (startNewSync w p (startNewSync w p m)) = watch_started (startNewSync w p m)
     \<and> logged (startNewSync w p (startNewSync w p m))
         = logged (startNewSync w p m) @ [LogDebug ''already syncing file/folder'' (FilePath p)]
     \<and> length (filter (\<lambda>e. fst e = p) (sources (startNewSync w p (startNewSync w p m)))) = 1
     \<and> distinct (map fst (sources (startNewSync w p (startNewSync w p m))))
     \<and> (\<not> map_has (sources m) p \<longrightarrow>
          watch_started (startNewSync w p (startNewSync w p m)) = watch_started m @ [p])
     \<and> distinct (map fst (sources (run_sync w ops init_manager)))"
proof -
  let ?m1 = "startNewSync w p m"
  have has: "map_has (sources ?m1) p" by (rule has_after_startNewSync)
  have d1: "distinct (map fst (sources ?m1))"
    using assms by (rule distinct_keys_startNewSync)
  have second: "startNewSync w p ?m1
      = ?m1\<lparr>logged := logged ?m1 @ [LogDebug ''already syncing file/folder'' (FilePath p)]\<rparr>"
    using has by (simp add: startNewSync_def[of w p ?m1])
  have cnt: "length (filter (\<lambda>e. fst e = p) (sources ?m1)) = 1"
    using d1 has by (simp add: count_key_distinct map_has_iff)
  have once: "\<not> map_has (sources m) p \<Longrightarrow> watch_started ?m1 = watch_started m @ [p]"
    by (simp add: startNewSync_def Let_def)
  have reach: "distinct (map fst (sources (run_sync w ops init_manager)))"
    by (rule reachable_at_most_one_source)
  show ?thesis
    unfolding second using d1 cnt once reach by simp
qed

theorem startNewSync_twice_one_source_witness:
  "distinct (map fst (sources (init_manager :: (unit, nat) sync_manager)))
   \<and> \<not> map_has (sources (init_manager :: (unit, nat) sync_manager)) ''/kube''
   \<and> sources (startNewSync (\<lambda>p. ([], 7)) ''/kube''
        (startNewSync (\<lambda>p. ([], 7)) ''/kube'' (init_manager :: (unit, nat) sync_manager)))
       = [(''/kube'', [], 7)]
   \<and> watch_started (startNewSync (\<lambda>p. ([], 7)) ''/kube''
        (startNewSync (\<lambda>p. ([], 7)) ''/kube'' (init_manager :: (unit, nat) sync_manager)))
       = [''/kube'']
   \<and> logged (startNewSync (\<lambda>p. ([], 7)) ''/kube''
        (startNewSync (\<lambda>p. ([], 7)) ''/kube'' (init_manager :: (unit, nat) sync_manager)))
       = [LogInfo ''starting sync of file/folder'' (FilePath ''/kube''),
          LogDebug ''1 files/folders watched'' (Files [''/kube'']),
          LogDebug ''already syncing file/folder'' (FilePath ''/kube'')]"
  using startNewSync_twice_one_source
    [of "init_manager :: (unit, nat) sync_manager" "\<lambda>p. ([], 7)" "''/kube''"]
  by (simp add: init_manager_def startNewSync_def map_has_def Let_def
      string_of_nat.simps digit_char_def)

subsection \<open>Error messages of the Kubernetes JSON API client\<close>

text \<open>
  Claim C5, as the code has it. A payload that is a plain string is returned as the single
  message. For an object whose \<open>status\<close> and \<open>reason\<close> are both present and not
  empty, the single message is \<open>message\<close> when that is present and not empty, and
  "status: reason" otherwise. When \<open>status\<close> or \<open>reason\<close> is absent or empty,
  the result is that of the formatter of the base class.
\<close>

theorem parseError_by_cases:
  "parseError super_parseError (StringPayload str) res = [str]
   \<and> (err_status e = Some status \<and> status \<noteq> [] \<and> err_reason e = Some reason \<and> reason \<noteq> [] \<longrightarrow>
        parseError super_parseError (ObjectPayload e) res =
          [case err_message e of
             None \<Rightarrow> status @ '': '' @ reason
           | Some message \<Rightarrow> if message \<noteq> [] then message else status @ '': '' @ reason])
   \<and> (err_status e = None \<or> err_status e = Some [] \<or> err_reason e = None \<or> err_reason e = Some [] \<longrightarrow>
        parseError super_parseError (ObjectPayload e) res = super_parseError (ObjectPayload e) res)"
  by (auto simp: parseError_def or_else_def split: option.splits)

theorem parseError_by_cases_witness:
  "parseError stub_super_parseError (StringPayload ''boom'') () = [''boom'']
   \<and> parseError stub_super_parseError (ObjectPayload empty_message_error) () = [''Failure: NotFound'']
   \<and> parseError stub_super_parseError (ObjectPayload empty_status_error) () = [''Error!'']"
  using parseError_by_cases [of stub_super_parseError "''boom''" "()" empty_message_error "''Failure''" "''NotFound''"]
    parseError_by_cases [of stub_super_parseError "''boom''" "()" empty_status_error "''Failure''" "''NotFound''"]
  by (simp add: empty_message_error_def empty_status_error_def stub_super_parseError_def)

text \<open>
  With "present" read as "the field is there", the statement fails on fields that are
  there but empty: an empty \<open>message\<close> is not returned, and an empty \<open>status\<close>
  sends the payload to the formatter of the base class.
\<close>

theorem parseError_present_but_empty_counterexample:
  "err_status empty_message_error = Some ''Failure''
   \<and> err_reason empty_message_error = Some ''NotFound''
   \<and> err_message empty_message_error = Some ''''
   \<and> parseError stub_super_parseError (ObjectPayload empty_message_error) () \<noteq> ['''']
   \<and> err_status empty_status_error = Some ''''
   \<and> err_reason empty_status_error = Some ''NotFound''
   \<and> err_message empty_status_error = None
   \<and> parseError stub_super_parseError (ObjectPayload empty_status_error) () \<noteq> ['': NotFound'']"
  by (simp add: parseError_def or_else_def empty_message_error_def empty_status_error_def
      stub_super_parseError_def)


subsection \<open>Registration of clients\<close>

lemma apis_registerApi:
  "apis (registerApi (Inr c) None m) =
     (if apiBase c = [] \<or> map_has (apis m) (apiBase c) then apis m
      else AList.update (apiBase c) c (apis m))"
  by (simp add: registerApi_def)

lemma registerApi_registered_noop:
  "map_has (apis m) (apiBase c) \<Longrightarrow> registerApi (Inr c) None m = m"
  by (simp add: registerApi_def)

lemma registerApi_empty_noop:
  "apiBase c = [] \<Longrightarrow> registerApi (Inr c) None m = m"
  by (simp add: registerApi_def)

lemma has_after_registerApi:
  "apiBase c \<noteq> [] \<Longrightarrow> map_has (apis (registerApi (Inr c) None m)) (apiBase c)"
  by (simp add: apis_registerApi map_has_def update_conv')

text \<open>
  Claim C6, as the code has it. For two clients with the same \<open>apiBase\<close>, the second
  of two successive registrations changes nothing. When the \<open>apiBase\<close> is not empty,
  the registry afterwards maps it to the client it mapped it to before the two calls, if
  there was one, and to the first client otherwise; when it is empty, the map of the
  clients is as it was. Every other key of the map is unchanged.
\<close>

theorem registerApi_twice_keeps_first:
  assumes same: "apiBase c1 = apiBase c2"
  shows "registerApi (Inr c2) None (registerApi (Inr c1) None m) = registerApi (Inr c1) None m
    \<and> (apiBase c1 \<noteq> [] \<longrightarrow>
         map_of (apis (registerApi (Inr c2) None (registerApi (Inr c1) None m))) (apiBase c1)
           = Some (case map_of (apis m) (apiBase c1) of None \<Rightarrow> c1 | Some c0 \<Rightarrow> c0))
    \<and> (apiBase c1 = [] \<longrightarrow>
         apis (registerApi (Inr c2) None (registerApi (Inr c1) None m)) = apis m)
    \<and> (\<forall>k. k \<noteq> apiBase c1 \<longrightarrow>
         map_of (apis (registerApi (Inr c2) None (registerApi (Inr c1) None m))) k
           = map_of (apis m) k)"
proof -
  let ?m1 = "registerApi (Inr c1) None m"
  have second: "registerApi (Inr c2) None ?m1 = ?m1"
  proof (cases "apiBase c1 = []")
    case True
    with same show ?thesis by (simp add: registerApi_empty_noop)
  next
    case False
    then have "map_has (apis ?m1) (apiBase c2)"
      using same has_after_registerApi[of c1 m] by simp
    then show ?thesis by (rule registerApi_registered_noop)
  qed
  have first: "apiBase c1 \<noteq> [] \<Longrightarrow> map_of (apis ?m1) (apiBase c1)
      = Some (case map_of (apis m) (apiBase c1) of None \<Rightarrow> c1 | Some c0 \<Rightarrow> c0)"
    by (auto simp: apis_registerApi map_has_def update_conv' split: option.splits)
  have empty: "apiBase c1 = [] \<Longrightarrow> apis ?m1 = apis m"
    by (simp add: apis_registerApi)
  have others: "k \<noteq> apiBase c1 \<Longrightarrow> map_of (apis ?m1) k = map_of (apis m) k" for k
    by (simp add: apis_registerApi update_conv')
  show ?thesis
    unfolding second using first empty others by simp
qed

theorem registerApi_twice_keeps_first_witness:
  "apiBase pod_api_first = apiBase pod_api_second
   \<and> apiBase pod_api_first \<noteq> []
   \<and> map_of (apis (registerApi (Inr pod_api_second) None
                 (registerApi (Inr pod_api_first) None empty_registry))) ''/api/v1/pods''
       = Some pod_api_first
   \<and> map_of (apis (registerApi (Inr pod_api_second) None
                 (registerApi (Inr pod_api_first) None empty_registry))) ''/api/v1/nodes''
       = None"
proof -
  have same: "apiBase pod_api_first = apiBase pod_api_second"
    by (simp add: pod_api_first_def pod_api_second_def)
  show ?thesis
    using registerApi_twice_keeps_first [OF same, of empty_registry]
    by (simp add: registerApi_def map_has_def pod_api_first_def pod_api_second_def
        empty_registry_def)
qed

text \<open>
  From a registry that already holds a client under the \<open>apiBase\<close>, the two
  registrations leave that client in place, not the first of the two; and two clients
  with an empty \<open>apiBase\<close> are not registered at all.
\<close>

theorem registerApi_already_registered_counterexample:
  "apiBase pod_api_first = apiBase pod_api_second
   \<and> map_of (apis (registerApi (Inr pod_api_second) None
                 (registerApi (Inr pod_api_first) None registry_with_pods)))
        (apiBase pod_api_first) \<noteq> Some pod_api_first
   \<and> apiBase unnamed_api_first = apiBase unnamed_api_second
   \<and> map_of (apis (registerApi (Inr unnamed_api_second) None
                 (registerApi (Inr unnamed_api_first) None empty_registry)))
        (apiBase unnamed_api_first) \<noteq> Some unnamed_api_first"
  by (simp add: registerApi_def map_has_def registry_with_pods_def empty_registry_def
      pod_api_first_def pod_api_second_def pod_api_registered_def
      unnamed_api_first_def unnamed_api_second_def)


subsection \<open>Resolution of object references\<close>

lemma find_iter_None_iff: "find_iter xs P = None \<longleftrightarrow> (\<forall>x \<in> set xs. \<not> P x)"
  by (induction xs) simp_all

lemma find_iter_Some_mem: "find_iter xs P = Some x \<Longrightarrow> x \<in> set xs \<and> P x"
  by (induction xs) (auto split: if_splits)

lemma endsWith_s: "endsWith kind ''s'' \<longleftrightarrow> kind \<noteq> [] \<and> last kind = CHR ''s''"
proof (cases kind rule: rev_cases)
  case Nil
  then show ?thesis by (simp add: endsWith_def)
next
  case (snoc ys y)
  then show ?thesis by (simp add: endsWith_def)
qed

lemma lookup_generated_None:
  "\<forall>apiPrefix \<in> set apiPrefixes.
      fst (getApi h m (ByPath (createKubeApiURL h (params\<lparr>url_apiPrefix := Some apiPrefix\<rparr>)))) = None
   \<Longrightarrow> fst (lookup_generated h m params apiPrefixes) = None"
  by (induction apiPrefixes) (auto simp: Let_def split: option.splits prod.splits)

lemma lookup_generated_Some:
  "fst (lookup_generated h m params apiPrefixes) = Some apiLink
   \<Longrightarrow> \<exists>apiPrefix \<in> set apiPrefixes.
         apiLink = createKubeApiURL h (params\<lparr>url_apiPrefix := Some apiPrefix\<rparr>)"
  by (induction apiPrefixes) (auto simp: Let_def split: option.splits prod.splits)

lemma lookupApiLink_unfold:
  assumes kind: "ref_kind ref = Some kind" "kind \<noteq> []"
    and params: "params = \<lparr>url_apiPrefix = None,
        url_apiVersion = (case ref_apiVersion ref of None \<Rightarrow> ''v1'' | Some v \<Rightarrow> v),
        url_name = ref_name ref,
        url_namespace = (case ref_namespace ref of
                           Some ns \<Rightarrow> Some ns
                         | None \<Rightarrow> (case parentObject of None \<Rightarrow> None | Some parent \<Rightarrow> getNs parent)),
        url_resource = toLowerCase h kind @ (if last kind = CHR ''s'' then ''es'' else ''s'')\<rparr>"
  shows "fst (lookupApiLink h m ref parentObject) =
      (case find_iter (map snd (apis m))
      (\<lambda>api. api_kind api = kind \<and> apiVersionWithGroup api = url_apiVersion params) of
         Some api \<Rightarrow> getUrl h api (url_namespace params) (url_name params)
       | None \<Rightarrow>
          (case fst (lookup_generated h m params [''/apis'', ''/api'']) of
             Some apiLink \<Rightarrow> apiLink
           | None \<Rightarrow>
              (case find_iter (map snd (apis m)) (\<lambda>api. api_kind api = kind) of
                 Some apiByKind \<Rightarrow> getUrl h apiByKind (url_namespace params) (url_name params)
               | None \<Rightarrow> createKubeApiURL h params)))"
proof -
  have res: "(if endsWith kind ''s'' then toLowerCase h kind @ ''es'' else toLowerCase h kind @ ''s'')
      = toLowerCase h kind @ (if last kind = CHR ''s'' then ''es'' else ''s'')"
    using kind(2) by (simp add: endsWith_s)
  have p: "\<lparr>url_apiPrefix = None,
        url_apiVersion = (case ref_apiVersion ref of None \<Rightarrow> ''v1'' | Some v \<Rightarrow> v),
        url_name = ref_name ref,
        url_namespace = (case ref_namespace ref of
                           Some ns \<Rightarrow> Some ns
                         | None \<Rightarrow> (case parentObject of None \<Rightarrow> None | Some parent \<Rightarrow> getNs parent)),
        url_resource = (if endsWith kind ''s'' then toLowerCase h kind @ ''es''
                                     else toLowerCase h kind @ ''s'')\<rparr> = params"
    unfolding res params ..
  have sel: "url_apiVersion params = (case ref_apiVersion ref of None \<Rightarrow> ''v1'' | Some v \<Rightarrow> v)"
    "url_name params = ref_name ref"
    "url_namespace params = (case ref_namespace ref of
                           Some ns \<Rightarrow> Some ns
                         | None \<Rightarrow> (case parentObject of None \<Rightarrow> None | Some parent \<Rightarrow> getNs parent))"
    by (simp_all add: params)
  show ?thesis
    unfolding lookupApiLink_def Let_def kind option.case p sel
    using kind(2)
    by (simp only: getApi.simps case_prod_beta fst_conv snd_conv if_False option.case
          split: option.split) simp
qed

text \<open>
  Claim C8. For a reference with a non-empty kind, the link returned is the URL of a
  registered client of that kind, or a generated link under \<open>/apis\<close> or \<open>/api\<close>,
  or the guessed URL. When no registered client has the kind and \<open>getApi\<close> finds no
  client for the links generated under the two prefixes, it is the guessed URL: the one
  \<open>createKubeApiURL\<close> builds without a prefix for the resource named by the lowercased
  kind followed by "es" if the kind ends in "s", and by "s" otherwise. The lowercased kind
  is what \<open>String.prototype.toLowerCase\<close> returns for the kind, whatever the letters of
  the kind are.
\<close>

theorem lookupApiLink_total:
  assumes kind: "ref_kind ref = Some kind" "kind \<noteq> []"
    and params: "params = \<lparr>url_apiPrefix = None,
        url_apiVersion = (case ref_apiVersion ref of None \<Rightarrow> ''v1'' | Some v \<Rightarrow> v),
        url_name = ref_name ref,
        url_namespace = (case ref_namespace ref of
                           Some ns \<Rightarrow> Some ns
                         | None \<Rightarrow> (case parentObject of None \<Rightarrow> None | Some parent \<Rightarrow> getNs parent)),
        url_resource = toLowerCase h kind @ (if last kind = CHR ''s'' then ''es'' else ''s'')\<rparr>"
  shows "((\<exists>api \<in> set (map snd (apis m)). api_kind api = kind
             \<and> fst (lookupApiLink h m ref parentObject) = getUrl h api (url_namespace params) (url_name params))
          \<or> (\<exists>apiPrefix \<in> set [''/apis'', ''/api''].
                fst (lookupApiLink h m ref parentObject)
                  = createKubeApiURL h (params\<lparr>url_apiPrefix := Some apiPrefix\<rparr>))
          \<or> fst (lookupApiLink h m ref parentObject) = createKubeApiURL h params)
     \<and> ((\<forall>api \<in> set (map snd (apis m)). api_kind api \<noteq> kind)
          \<and> (\<forall>apiPrefix \<in> set [''/apis'', ''/api''].
                fst (getApi h m (ByPath (createKubeApiURL h (params\<lparr>url_apiPrefix := Some apiPrefix\<rparr>)))) = None)
          \<longrightarrow> fst (lookupApiLink h m ref parentObject) = createKubeApiURL h params)"
proof -
  let ?byKV = "find_iter (map snd (apis m))
      (\<lambda>api. api_kind api = kind \<and> apiVersionWithGroup api = url_apiVersion params)"
  let ?byK = "find_iter (map snd (apis m)) (\<lambda>api. api_kind api = kind)"
  let ?gen = "lookup_generated h m params [''/apis'', ''/api'']"
  have unfold: "fst (lookupApiLink h m ref parentObject) =
      (case ?byKV of
         Some api \<Rightarrow> getUrl h api (url_namespace params) (url_name params)
       | None \<Rightarrow>
          (case fst ?gen of
             Some apiLink \<Rightarrow> apiLink
           | None \<Rightarrow>
              (case ?byK of
                 Some apiByKind \<Rightarrow> getUrl h apiByKind (url_namespace params) (url_name params)
               | None \<Rightarrow> createKubeApiURL h params)))"
    using kind params by (rule lookupApiLink_unfold)
  have first: "(\<exists>api \<in> set (map snd (apis m)). api_kind api = kind
             \<and> fst (lookupApiLink h m ref parentObject) = getUrl h api (url_namespace params) (url_name params))
          \<or> (\<exists>apiPrefix \<in> set [''/apis'', ''/api''].
                fst (lookupApiLink h m ref parentObject)
                  = createKubeApiURL h (params\<lparr>url_apiPrefix := Some apiPrefix\<rparr>))
          \<or> fst (lookupApiLink h m ref parentObject) = createKubeApiURL h params"
  proof (cases ?byKV)
    case (Some api)
    then have "api \<in> set (map snd (apis m)) \<and> api_kind api = kind"
      by (auto dest: find_iter_Some_mem)
    with Some unfold show ?thesis by auto
  next
    case None
    note kv = None
    show ?thesis
    proof (cases "fst ?gen")
      case (Some apiLink)
      then have "\<exists>apiPrefix \<in> set [''/apis'', ''/api''].
          apiLink = createKubeApiURL h (params\<lparr>url_apiPrefix := Some apiPrefix\<rparr>)"
        by (rule lookup_generated_Some)
      with Some kv unfold show ?thesis by simp
    next
      case None
      note gen = None
      show ?thesis
      proof (cases ?byK)
        case (Some apiByKind)
        then have "apiByKind \<in> set (map snd (apis m)) \<and> api_kind apiByKind = kind"
          by (auto dest: find_iter_Some_mem)
        with Some kv gen unfold show ?thesis by auto
      next
        case None
        with kv gen unfold show ?thesis by simp
      qed
    qed
  qed
  have second: "fst (lookupApiLink h m ref parentObject) = createKubeApiURL h params"
    if by_kind: "\<forall>api \<in> set (map snd (apis m)). api_kind api \<noteq> kind"
      and by_link: "\<forall>apiPrefix \<in> set [''/apis'', ''/api''].
        fst (getApi h m (ByPath (createKubeApiURL h (params\<lparr>url_apiPrefix := Some apiPrefix\<rparr>)))) = None"
  proof -
    have f1: "?byKV = None"
      using by_kind by (simp add: find_iter_None_iff)
    have f3: "?byK = None"
      using by_kind by (simp add: find_iter_None_iff)
    have f2: "fst ?gen = None"
      using by_link by (rule lookup_generated_None)
    show ?thesis
      unfolding unfold using f1 f2 f3 by simp
  qed
  from first second show ?thesis by blast
qed

theorem lookupApiLink_total_witness:
  "fst (lookupApiLink example_helpers empty_registry ingress_ref (None :: kube_object option))
     = ''/apis/networking.k8s.io/v1/ingresses''"
  using lookupApiLink_total [where ref = ingress_ref and kind = "''Ingress''"
      and params = "\<lparr>url_apiPrefix = None, url_apiVersion = ''networking.k8s.io/v1'',
        url_name = Some ''web'', url_namespace = None, url_resource = ''ingresses''\<rparr>"
      and parentObject = "None :: kube_object option" and m = empty_registry
      and h = example_helpers]
  by (simp add: ingress_ref_def empty_registry_def example_helpers_def ascii_lower_char_def)

text \<open>
  Claim C10. For a reference whose kind is absent or the empty string,
  \<open>lookupApiLink\<close> returns the empty string, whatever the registry and the helpers
  are, and writes nothing to the console: \<open>getApi\<close> is not called.
\<close>

theorem lookupApiLink_without_kind:
  "ref_kind ref = None \<or> ref_kind ref = Some [] \<Longrightarrow> lookupApiLink h m ref parentObject = ([], [])"
  by (auto simp: lookupApiLink_def Let_def)

theorem lookupApiLink_without_kind_witness:
  "lookupApiLink example_helpers registry_with_pods no_kind_ref (None :: kube_object option) = ([], [])"
  using lookupApiLink_without_kind [of no_kind_ref example_helpers registry_with_pods "None :: kube_object option"]
  by (simp add: no_kind_ref_def)

subsection \<open>Version negotiation\<close>

lemma negotiate_first_match:
  "i < length cs \<Longrightarrow> lists_resource server (cs ! i)
   \<Longrightarrow> \<forall>j<i. \<not> lists_resource server (cs ! j)
   \<Longrightarrow> negotiate server cs = (map resource_list_request (take (Suc i) cs), Some (cs ! i))"
proof (induction cs arbitrary: i)
  case Nil
  then show ?case by simp
next
  case (Cons c cs)
  show ?case
  proof (cases i)
    case 0
    with Cons.prems show ?thesis by simp
  next
    case (Suc k)
    with Cons.prems have c: "\<not> lists_resource server c" by auto
    from Cons.prems Suc have "k < length cs" "lists_resource server (cs ! k)"
      "\<forall>j<k. \<not> lists_resource server (cs ! j)" by auto
    then have "negotiate server cs = (map resource_list_request (take (Suc k) cs), Some (cs ! k))"
      by (rule Cons.IH)
    with c Suc show ?thesis by simp
  qed
qed

lemma negotiate_no_match:
  "\<forall>c \<in> set cs. \<not> lists_resource server c
   \<Longrightarrow> negotiate server cs = (map resource_list_request cs, None)"
  by (induction cs) simp_all

text \<open>
  Claim C2. For a client with \<open>checkPreferredVersion\<close> set and nothing resolved yet,
  when candidate \<open>i\<close> is the first one whose resource list has the resource, version
  negotiation issues the resource-list requests of the candidates \<open>0\<close> to \<open>i\<close>, in
  the declared order, then the request of the group metadata of candidate \<open>i\<close>, and
  nothing else: no candidate after \<open>i\<close> is queried, whatever its resource list holds.
  Prefix and group are those of candidate \<open>i\<close>.
\<close>

theorem negotiation_stops_at_first_match:
  assumes flag: "checkPreferredVersion client" "apiVersionPreferred client = None"
    and i: "i < length (api_candidates client)"
    and hit: "lists_resource server (api_candidates client ! i)"
    and miss: "\<forall>j<i. \<not> lists_resource server (api_candidates client ! j)"
  shows "snd (negotiate_version server preferred_at client)
       = map resource_list_request (take (Suc i) (api_candidates client))
         @ [group_request (api_candidates client ! i)]
     \<and> resolved_apiPrefix (fst (negotiate_version server preferred_at client))
       = Some (cand_apiPrefix (api_candidates client ! i))
     \<and> resolved_apiGroup (fst (negotiate_version server preferred_at client))
       = Some (cand_apiGroup (api_candidates client ! i))"
proof -
  have "negotiate server (api_candidates client)
      = (map resource_list_request (take (Suc i) (api_candidates client)),
         Some (api_candidates client ! i))"
    using i hit miss by (rule negotiate_first_match)
  then show ?thesis
    using flag by (simp add: negotiate_version_def)
qed

theorem negotiation_stops_at_first_match_witness:
  "lists_resource old_cluster (ingress_candidates ! 2)
   \<and> snd (negotiate_version old_cluster old_cluster_preferred ingress_client)
     = [\<lparr>req_method = HttpGet, req_url = ''/apis/networking.k8s.io/v1''\<rparr>,
        \<lparr>req_method = HttpGet, req_url = ''/apis/extensions/v1beta1''\<rparr>,
        \<lparr>req_method = HttpGet, req_url = ''/apis/extensions''\<rparr>]"
proof -
  have flag: "checkPreferredVersion ingress_client" "apiVersionPreferred ingress_client = None"
    by (simp_all add: ingress_client_def)
  have i: "1 < length (api_candidates ingress_client)"
    by (simp add: ingress_client_def ingress_candidates_def)
  have hit: "lists_resource old_cluster (api_candidates ingress_client ! 1)"
    by (simp add: ingress_client_def ingress_candidates_def lists_resource_def old_cluster_def
        resource_list_request_def)
  have miss: "\<forall>j<1. \<not> lists_resource old_cluster (api_candidates ingress_client ! j)"
    by (simp add: ingress_client_def ingress_candidates_def lists_resource_def old_cluster_def
        resource_list_request_def)
  have later: "lists_resource old_cluster (ingress_candidates ! 2)"
    by (simp add: ingress_candidates_def lists_resource_def old_cluster_def
        resource_list_request_def)
  show ?thesis
    using negotiation_stops_at_first_match [OF flag i hit miss, of old_cluster_preferred] later
    by (simp add: ingress_client_def ingress_candidates_def resource_list_request_def
        group_request_def)
qed


subsection \<open>Deleting a cluster-scoped resource\<close>

text \<open>
  Claim C4. On a cluster-scoped kind, \<open>delete\<close> with a non-empty namespace is rejected
  and no request is sent; with the namespace omitted or empty, the one request sent is
  the delete of the resource URL without a namespace, and the call resolves with what
  the transport resolves with.
\<close>

theorem delete_cluster_scoped:
  assumes "\<not> res_namespaced r"
  shows "(namespace = Some ns \<and> ns \<noteq> [] \<longrightarrow>
            delete_resource r transport name namespace = (Inl NamespaceOnClusterScoped, []))
     \<and> (namespace = None \<or> namespace = Some [] \<longrightarrow>
            snd (delete_resource r transport name namespace)
              = [\<lparr>req_method = HttpDelete,
                  req_url = resource_url r (Some name) None @ ''?propagationPolicy=Background''\<rparr>]
          \<and> (\<forall>v. transport \<lparr>req_method = HttpDelete,
                  req_url = resource_url r (Some name) None @ ''?propagationPolicy=Background''\<rparr> = Inr v
                \<longrightarrow> fst (delete_resource r transport name namespace) = Inr v))"
proof -
  have url: "resource_url r (Some name) (Some []) = resource_url r (Some name) None"
    using assms by (simp add: resource_url_def)
  show ?thesis
    using assms by (auto simp: delete_resource_def Let_def url)
qed

theorem delete_cluster_scoped_witness:
  "delete_resource namespace_resource accepting_transport ''foo'' (Some ''test'')
     = (Inl NamespaceOnClusterScoped, [])
   \<and> delete_resource namespace_resource accepting_transport ''foo'' None
     = (Inr ''{}'', [\<lparr>req_method = HttpDelete,
                       req_url = ''/api/v1/namespaces/foo?propagationPolicy=Background''\<rparr>])
   \<and> delete_resource namespace_resource accepting_transport ''foo'' (Some [])
     = (Inr ''{}'', [\<lparr>req_method = HttpDelete,
                       req_url = ''/api/v1/namespaces/foo?propagationPolicy=Background''\<rparr>])"
proof -
  have cluster: "\<not> res_namespaced namespace_resource"
    by (simp add: namespace_resource_def)
  show ?thesis
    using delete_cluster_scoped [OF cluster, of "Some ''test''" "''test''" accepting_transport "''foo''"]
      delete_cluster_scoped [OF cluster, of None "''test''" accepting_transport "''foo''"]
      delete_cluster_scoped [OF cluster, of "Some []" "''test''" accepting_transport "''foo''"]
    by (simp add: namespace_resource_def accepting_transport_def resource_url_def
        delete_resource_def)
qed


subsection \<open>Watch subscriptions\<close>

lemma watch_step_params:
  "ws_namespace (watch_step s input) = ws_namespace s
   \<and> ws_timeout (watch_step s input) = ws_timeout s"
  by (cases input) simp_all

lemma watch_step_stopped:
  "ws_stopped s \<Longrightarrow> \<not> ws_in_flight s
   \<Longrightarrow> ws_stopped (watch_step s input) \<and> \<not> ws_in_flight (watch_step s input)
       \<and> ws_requests (watch_step s input) = ws_requests s
       \<and> ws_aborted (watch_step s input) = ws_aborted s"
  by (cases input) simp_all

lemma watch_run_stopped:
  "ws_stopped s \<Longrightarrow> \<not> ws_in_flight s
   \<Longrightarrow> ws_requests (watch_run s inputs) = ws_requests s
       \<and> \<not> ws_in_flight (watch_run s inputs)"
proof (induction inputs arbitrary: s)
  case Nil
  then show ?case by simp
next
  case (Cons input inputs)
  from Cons.prems have step: "ws_stopped (watch_step s input)" "\<not> ws_in_flight (watch_step s input)"
    "ws_requests (watch_step s input) = ws_requests s"
    using watch_step_stopped[of s input] by simp_all
  from Cons.IH[OF step(1,2)] step(3) show ?case by simp
qed

lemma watch_run_requests_params:
  "ws_namespace s = namespace \<Longrightarrow> ws_timeout s = timeout
   \<Longrightarrow> \<forall>r \<in> set (ws_requests s). wr_namespace r = namespace \<and> wr_timeout r = timeout
   \<Longrightarrow> \<forall>r \<in> set (ws_requests (watch_run s inputs)).
         wr_namespace r = namespace \<and> wr_timeout r = timeout"
proof (induction inputs arbitrary: s)
  case Nil
  then show ?case by simp
next
  case (Cons input inputs)
  have params: "ws_namespace (watch_step s input) = namespace"
    "ws_timeout (watch_step s input) = timeout"
    using Cons.prems(1,2) watch_step_params[of s input] by simp_all
  have reqs: "\<forall>r \<in> set (ws_requests (watch_step s input)).
      wr_namespace r = namespace \<and> wr_timeout r = timeout"
    using Cons.prems by (cases input) (simp_all add: next_watch_request_def)
  from Cons.IH[OF params reqs] show ?case by simp
qed

text \<open>
  Claim C3. When the stream in flight ends cleanly and the subscription has not been
  stopped, one new watch request is issued, with the namespace and the timeout of the
  subscription and the resource version of the checkpoint, and its stream is in flight.
  After the stop handle is called or the abort controller fires, no stream is in flight
  (the one that was has been aborted) and no request is issued any more, whatever
  happens next. Every request of a subscription has the namespace and the timeout the
  subscription was opened with.
\<close>

theorem watch_reconnects_until_stopped:
  "(ws_in_flight s \<and> \<not> ws_stopped s \<longrightarrow>
      ws_requests (watch_step s StreamEnd)
        = ws_requests s @ [\<lparr>wr_namespace = ws_namespace s,
                              wr_resourceVersion = ws_resourceVersion s,
                              wr_timeout = ws_timeout s\<rparr>]
      \<and> ws_in_flight (watch_step s StreamEnd))
   \<and> (stop = StopFn \<or> stop = AbortFired \<longrightarrow>
        \<not> ws_in_flight (watch_step s stop)
        \<and> (ws_in_flight s \<longrightarrow> ws_aborted (watch_step s stop) = Suc (ws_aborted s))
        \<and> ws_requests (watch_run (watch_step s stop) inputs) = ws_requests s
        \<and> \<not> ws_in_flight (watch_run (watch_step s stop) inputs))
   \<and> (\<forall>r \<in> set (ws_requests (watch_run (watch_open namespace timeout) inputs)).
        wr_namespace r = namespace \<and> wr_timeout r = timeout)"
proof -
  have reconnect: "ws_in_flight s \<and> \<not> ws_stopped s \<longrightarrow>
      ws_requests (watch_step s StreamEnd)
        = ws_requests s @ [\<lparr>wr_namespace = ws_namespace s,
                              wr_resourceVersion = ws_resourceVersion s,
                              wr_timeout = ws_timeout s\<rparr>]
      \<and> ws_in_flight (watch_step s StreamEnd)"
    by (simp add: next_watch_request_def)
  have stopped: "stop = StopFn \<or> stop = AbortFired \<longrightarrow>
        \<not> ws_in_flight (watch_step s stop)
        \<and> (ws_in_flight s \<longrightarrow> ws_aborted (watch_step s stop) = Suc (ws_aborted s))
        \<and> ws_requests (watch_run (watch_step s stop) inputs) = ws_requests s
        \<and> \<not> ws_in_flight (watch_run (watch_step s stop) inputs)"
  proof
    assume stop: "stop = StopFn \<or> stop = AbortFired"
    then have st: "ws_stopped (watch_step s stop)" "\<not> ws_in_flight (watch_step s stop)"
      "ws_requests (watch_step s stop) = ws_requests s"
      "ws_in_flight s \<longrightarrow> ws_aborted (watch_step s stop) = Suc (ws_aborted s)"
      by (cases "ws_in_flight s"; auto)+
    from watch_run_stopped[OF st(1,2), of inputs] st
    show "\<not> ws_in_flight (watch_step s stop)
        \<and> (ws_in_flight s \<longrightarrow> ws_aborted (watch_step s stop) = Suc (ws_aborted s))
        \<and> ws_requests (watch_run (watch_step s stop) inputs) = ws_requests s
        \<and> \<not> ws_in_flight (watch_run (watch_step s stop) inputs)"
      by simp
  qed
  have same: "\<forall>r \<in> set (ws_requests (watch_run (watch_open namespace timeout) inputs)).
        wr_namespace r = namespace \<and> wr_timeout r = timeout"
    by (rule watch_run_requests_params) (simp_all add: watch_open_def)
  show ?thesis
    by (rule conjI[OF reconnect conjI[OF stopped same]])
qed

theorem watch_reconnects_until_stopped_witness:
  "ws_requests (watch_step (watch_step kube_system_watch (StreamEvent ''1'')) StreamEnd)
     = [\<lparr>wr_namespace = Some ''kube-system'', wr_resourceVersion = [], wr_timeout = Some 60\<rparr>,
        \<lparr>wr_namespace = Some ''kube-system'', wr_resourceVersion = ''1'', wr_timeout = Some 60\<rparr>]
   \<and> ws_requests (watch_run (watch_step (watch_step kube_system_watch (StreamEvent ''1'')) StopFn)
        [StreamEnd, StreamEvent ''2'', StreamEnd])
     = [\<lparr>wr_namespace = Some ''kube-system'', wr_resourceVersion = [], wr_timeout = Some 60\<rparr>]
   \<and> \<not> ws_in_flight (watch_step (watch_step kube_system_watch (StreamEvent ''1'')) StopFn)"
proof -
  let ?s = "watch_step kube_system_watch (StreamEvent ''1'')"
  have live: "ws_in_flight ?s \<and> \<not> ws_stopped ?s"
    by (simp add: kube_system_watch_def watch_open_def)
  have reqs: "ws_requests ?s
      = [\<lparr>wr_namespace = Some ''kube-system'', wr_resourceVersion = [], wr_timeout = Some 60\<rparr>]"
    "ws_namespace ?s = Some ''kube-system''" "ws_resourceVersion ?s = ''1''"
    "ws_timeout ?s = Some 60"
    by (simp_all add: kube_system_watch_def watch_open_def)
  note inst = watch_reconnects_until_stopped
      [of ?s StopFn "[StreamEnd, StreamEvent ''2'', StreamEnd]" "Some ''kube-system''" "Some 60"]
  from inst live have one: "ws_requests (watch_step ?s StreamEnd)
        = ws_requests ?s @ [\<lparr>wr_namespace = ws_namespace ?s,
                              wr_resourceVersion = ws_resourceVersion ?s,
                              wr_timeout = ws_timeout ?s\<rparr>]"
    by blast
  from inst have two: "\<not> ws_in_flight (watch_step ?s StopFn)
      \<and> ws_requests (watch_run (watch_step ?s StopFn) [StreamEnd, StreamEvent ''2'', StreamEnd])
         = ws_requests ?s"
    by blast
  from one two show ?thesis
    by (simp only: reqs append.simps simp_thms)
qed

end
